theory Spec2Isabelle
  imports Complex_Main "HOL-Library.Sublist"
begin

section \<open>Python exceptions\<close>

text \<open>
  The exceptions that the modelled parts of \<^verbatim>\<open>train.py\<close> can raise. A read of a local
  variable before its first assignment raises \<^verbatim>\<open>UnboundLocalError\<close>, which Python
  declares as a subclass of \<^verbatim>\<open>NameError\<close>. \<open>TFError\<close> stands for any exception
  coming out of a TensorFlow call, \<open>IOError\<close> for a failing file operation.
\<close>

datatype exn =
    ValueError
  | UnboundLocalError
  | IndexError
  | ZeroDivisionError
  | KeyboardInterrupt
  | IOError
  | TFError


section \<open>Gradient averaging in \<^verbatim>\<open>build_multigpu\<close>\<close>

text \<open>
  A gradient tensor is modelled by the list of its entries (its shape flattened), over
  the reals: rounding of the floating-point mean is not modelled. A stack of tensors
  (a tensor with one more leading axis) is the list of its rows.
\<close>

type_synonym tensor = "real list"

text \<open>\<^verbatim>\<open>tf.expand_dims(g, 0)\<close>: a stack holding the one row \<open>g\<close>.\<close>

definition expand_dims0 :: "tensor \<Rightarrow> tensor list" where
  "expand_dims0 g = [g]"

text \<open>
  \<^verbatim>\<open>tf.concat(0, grads)\<close>: the rows of all stacks, one after the other. TensorFlow
  rejects an empty list and rows of different shapes.
\<close>

definition concat0 :: "tensor list list \<Rightarrow> exn + tensor list" where
  "concat0 grads =
     (case concat grads of
        [] \<Rightarrow> Inl ValueError
      | r # rows \<Rightarrow>
          if list_all (\<lambda>r'. length r' = length r) rows then Inr (r # rows)
          else Inl ValueError)"

text \<open>\<^verbatim>\<open>tf.reduce_mean(grad, 0)\<close>: the mean over the leading axis, entry by entry.\<close>

definition reduce_mean0 :: "tensor list \<Rightarrow> tensor" where
  "reduce_mean0 rows =
     (case rows of
        [] \<Rightarrow> []
      | r # _ \<Rightarrow>
          map (\<lambda>j. sum_list (map (\<lambda>r'. r' ! j) rows) / real (length rows))
            [0..<length r])"

text \<open>
  Python's \<^verbatim>\<open>zip(*tower_grads)\<close>: the \<open>i\<close>-th tuple holds the \<open>i\<close>-th entry of every
  tower, up to the length of the shortest tower; no tuple at all for no tower.
\<close>

definition zip_star :: "'a list list \<Rightarrow> 'a list list" where
  "zip_star xss =
     (case xss of
        [] \<Rightarrow> []
      | xs # _ \<Rightarrow>
          map (\<lambda>i. map (\<lambda>ys. ys ! i) xss)
            [0..<fold min (map length xss) (length xs)])"

text \<open>
  The inner loop (lines 240 to 245): the towers' gradients for one variable, those that
  are \<^verbatim>\<open>None\<close> skipped, each with a new leading axis.
\<close>

fun collect_grads :: "(tensor option \<times> 'v) list \<Rightarrow> tensor list list" where
  "collect_grads [] = []"
| "collect_grads ((g, _) # rest) =
     (case g of
        None \<Rightarrow> collect_grads rest
      | Some t \<Rightarrow> expand_dims0 t # collect_grads rest)"

text \<open>
  The outer loop (lines 239 to 255). The local variable \<^verbatim>\<open>v\<close> is assigned only on
  line 253, after a mean has been taken; \<open>None\<close> is the unbound variable. Line 248
  reads \<^verbatim>\<open>v\<close> when no tower has a gradient: the value left by an earlier iteration,
  or \<^verbatim>\<open>UnboundLocalError\<close> when there was none.
\<close>

fun average_loop ::
  "(tensor option \<times> 'v) list list \<Rightarrow> 'v option \<Rightarrow> (tensor option \<times> 'v) list
     \<Rightarrow> exn + (tensor option \<times> 'v) list" where
  "average_loop [] v average_grads = Inr average_grads"
| "average_loop (grad_and_vars # rest) v average_grads =
     (let grads = collect_grads grad_and_vars in
      if length grads = 0 then
        (case v of
           None \<Rightarrow> Inl UnboundLocalError
         | Some v' \<Rightarrow> average_loop rest v (average_grads @ [(None, v')]))
      else
        (case concat0 grads of
           Inl e \<Rightarrow> Inl e
         | Inr stacked \<Rightarrow>
             (let grad = reduce_mean0 stacked in
              case grad_and_vars of
                [] \<Rightarrow> Inl IndexError
              | (_, v') # _ \<Rightarrow>
                  average_loop rest (Some v') (average_grads @ [(Some grad, v')]))))"

definition average_gradients ::
  "(tensor option \<times> 'v) list list \<Rightarrow> exn + (tensor option \<times> 'v) list" where
  "average_gradients tower_grads = average_loop (zip_star tower_grads) None []"

text \<open>
  What the aggregation is expected to compute, in the words of the specification: the
  contributions of the towers that have a gradient for a variable, and their
  arithmetic mean.
\<close>

definition contributions :: "(tensor option \<times> 'v) list \<Rightarrow> tensor list" where
  "contributions grad_and_vars = concat (map (\<lambda>p. case fst p of None \<Rightarrow> [] | Some t \<Rightarrow> [t]) grad_and_vars)"

definition arith_mean :: "tensor list \<Rightarrow> tensor" where
  "arith_mean ts =
     map (\<lambda>j. sum_list (map (\<lambda>t. t ! j) ts) / real (length ts)) [0..<length (hd ts)]"

definition same_shape :: "tensor list \<Rightarrow> bool" where
  "same_shape ts = list_all (\<lambda>t. length t = length (hd ts)) ts"

section \<open>Arguments, directories and the outside world\<close>

text \<open>The fields of the parsed arguments that the modelled functions read.\<close>

record args =
  batch_size :: int
  data_dir :: string
  store_metadata :: bool
  logdir :: "string option"
  logdir_root :: "string option"
  restore_from :: "string option"
  checkpoint_every :: int
  num_steps :: int
  wavenet_params :: string
  sample_size :: int
  silence_threshold :: real
  num_gpus :: int
  random_crop :: bool
  job_name :: string
  task_index :: int

definition LOGDIR_ROOT :: string where
  "LOGDIR_ROOT = ''./logdir''"

definition EPSILON :: real where
  "EPSILON = 0.001"

definition STANDALONE :: string where
  "STANDALONE = ''standalone''"

text \<open>
  Everything the script observes of its surroundings: the clock read at import time,
  the checkpoint directory, the builtin \<^verbatim>\<open>int\<close> on strings (\<open>None\<close> for its
  \<^verbatim>\<open>ValueError\<close>), the parameter file (the result stands for its \<^verbatim>\<open>sample_rate\<close>
  entry) and the TensorFlow calls that may fail or be interrupted. An exception inside
  the training loop is modelled where the loop spends its time, in the session run of
  a step: \<open>sess_run w s = Some KeyboardInterrupt\<close> is the user's interrupt during
  step \<open>s\<close>. The construction of the graph, the session and the threads is taken to
  succeed.
\<close>

record world =
  started_datestring :: string
  get_checkpoint_state :: "string \<Rightarrow> exn + string option"
  py_int :: "string \<Rightarrow> int option"
  saver_restore :: "string \<Rightarrow> exn option"
  json_load :: "string \<Rightarrow> exn + int"
  sess_run :: "int \<Rightarrow> exn option"
  should_stop :: "nat \<Rightarrow> bool"
  dist_run :: "nat \<Rightarrow> exn + int"

text \<open>The keyword arguments with which \<^verbatim>\<open>AudioReader\<close> is constructed.\<close>

record reader_args =
  reader_audio_dir :: string
  reader_sample_rate :: int
  reader_sample_size :: int
  reader_random_crop :: bool
  reader_silence_threshold :: "real option"

datatype event =
    Print string
  | PrintException exn
  | PrintGlobalStep int
  | OpenFile string
  | CreateReader reader_args
  | Dequeue int
  | BuildTower bool
  | CreateWriter string
  | InitVariables
  | Restore string
  | StartThreads
  | RunStep int
  | AddSummary int
  | AddRunMetadata int
  | WriteTimeline string
  | Progress int
  | PeriodicSave string int
  | FinalSave string int
  | StopThreads
  | StartServer string int
  | StartChiefQueueRunner
  | InitTokens
  | DistRun nat
  | SvStop

text \<open>
  How a call ends: it returns, it raises, or it never returns (\<^verbatim>\<open>server.join()\<close> of
  a parameter server).
\<close>

datatype status = Returned | Raised exn | Blocked

record outcome =
  events :: "event list"
  status :: status

definition prepend :: "event list \<Rightarrow> outcome \<Rightarrow> outcome" where
  "prepend out r = r\<lparr>events := out @ events r\<rparr>"

subsection \<open>\<^verbatim>\<open>get_default_logdir\<close> and \<^verbatim>\<open>validate_directories\<close>\<close>

text \<open>\<^verbatim>\<open>os.path.join\<close> of \<^verbatim>\<open>posixpath\<close>.\<close>

definition path_join2 :: "string \<Rightarrow> string \<Rightarrow> string" where
  "path_join2 path b =
     (if b \<noteq> [] \<and> hd b = CHR ''/'' then b
      else if path = [] \<or> last path = CHR ''/'' then path @ b
      else path @ ''/'' @ b)"

definition os_path_join :: "string \<Rightarrow> string list \<Rightarrow> string" where
  "os_path_join a p = fold (\<lambda>b path. path_join2 path b) p a"

definition get_default_logdir :: "string \<Rightarrow> string \<Rightarrow> string" where
  "get_default_logdir datestring logdir_root' =
     os_path_join logdir_root' [''train'', datestring]"

text \<open>Python's truth value of an optional string: \<^verbatim>\<open>None\<close> and the empty string are false.\<close>

definition truthy :: "string option \<Rightarrow> bool" where
  "truthy x = (case x of None \<Rightarrow> False | Some s \<Rightarrow> s \<noteq> [])"

record directories =
  dir_logdir :: string
  dir_logdir_root :: "string option"
  dir_restore_from :: string

definition validate_directories ::
  "string \<Rightarrow> args \<Rightarrow> event list \<times> (exn + directories)" where
  "validate_directories datestring a =
     (if truthy (logdir a) \<and> truthy (logdir_root a) then ([], Inl ValueError)
      else if truthy (logdir a) \<and> truthy (restore_from a) then ([], Inl ValueError)
      else
        (let logdir_root' = (case logdir_root a of None \<Rightarrow> LOGDIR_ROOT | Some r \<Rightarrow> r);
             default = get_default_logdir datestring logdir_root';
             out = (case logdir a of
                      None \<Rightarrow> [Print (''Using default logdir: '' @ default)]
                    | Some _ \<Rightarrow> []);
             logdir' = (case logdir a of None \<Rightarrow> default | Some l \<Rightarrow> l);
             restore_from' = (case restore_from a of None \<Rightarrow> logdir' | Some r \<Rightarrow> r)
         in (out, Inr \<lparr>dir_logdir = logdir', dir_logdir_root = logdir_root a,
                       dir_restore_from = restore_from'\<rparr>)))"

subsection \<open>\<^verbatim>\<open>create_inputs\<close>\<close>

text \<open>
  The value that lines 273 and 274 bind to the local name \<^verbatim>\<open>silence_threshold\<close>:
  \<^verbatim>\<open>None\<close> for a threshold that does not exceed \<^verbatim>\<open>EPSILON\<close>.
\<close>

definition local_silence_threshold :: "args \<Rightarrow> real option" where
  "local_silence_threshold a =
     (if silence_threshold a > EPSILON then Some (silence_threshold a) else None)"

text \<open>
  The reader that \<^verbatim>\<open>create_inputs\<close> builds. The local value is bound and then not
  used: line 281 passes \<^verbatim>\<open>args.silence_threshold\<close>.
\<close>

definition create_inputs :: "args \<Rightarrow> int \<Rightarrow> reader_args" where
  "create_inputs a sample_rate =
     (let silence_threshold' = local_silence_threshold a in
      \<lparr>reader_audio_dir = data_dir a,
       reader_sample_rate = sample_rate,
       reader_sample_size = sample_size a,
       reader_random_crop = random_crop a,
       reader_silence_threshold = Some (silence_threshold a)\<rparr>)"

section \<open>Checkpoints: \<^verbatim>\<open>load\<close>\<close>

text \<open>Python's \<^verbatim>\<open>s.split(c)\<close> for a one-character separator; never the empty list.\<close>

fun split_on :: "char \<Rightarrow> string \<Rightarrow> string list" where
  "split_on c [] = [[]]"
| "split_on c (x # xs) =
     (if x = c then [] # split_on c xs
      else (case split_on c xs of
              [] \<Rightarrow> [[x]]
            | word # ws \<Rightarrow> (x # word) # ws))"

definition load :: "world \<Rightarrow> string \<Rightarrow> event list \<times> (exn + int option)" where
  "load w dir =
     (let out = [Print (''Trying to restore saved checkpoints from '' @ dir @ '' ...'')] in
      case get_checkpoint_state w dir of
        Inl e \<Rightarrow> (out, Inl e)
      | Inr None \<Rightarrow> (out @ [Print '' No checkpoint found.''], Inr None)
      | Inr (Some path) \<Rightarrow>
          (let out1 = out @ [Print (''  Checkpoint found: '' @ path)] in
           case py_int w (last (split_on CHR ''-'' (last (split_on CHR ''/'' path)))) of
             None \<Rightarrow> (out1, Inl ValueError)
           | Some global_step \<Rightarrow>
               (let out2 = out1 @ [PrintGlobalStep global_step, Print ''  Restoring...'',
                                   Restore path] in
                case saver_restore w path of
                  Some e \<Rightarrow> (out2, Inl e)
                | None \<Rightarrow> (out2 @ [Print '' Done.''], Inr (Some global_step)))))"

section \<open>Standalone training\<close>

text \<open>
  The variables of the training loop that the cleanup reads: the loop variable
  \<^verbatim>\<open>step\<close> (\<open>None\<close> while no iteration has bound it) and \<^verbatim>\<open>last_saved_step\<close>.
\<close>

record loop_state =
  ls_events :: "event list"
  ls_step :: "int option"
  ls_last_saved :: int

text \<open>
  One iteration of the \<^verbatim>\<open>for\<close> loop (lines 453 to 480), for the step \<open>s\<close> that the
  loop has bound to \<^verbatim>\<open>step\<close>. The result carries the exception that leaves the loop,
  if any. \<^verbatim>\<open>step % 0\<close> raises \<^verbatim>\<open>ZeroDivisionError\<close>; for any other divisor Python's
  \<^verbatim>\<open>%\<close> on integers is \<open>mod\<close>.
\<close>

definition train_step ::
  "world \<Rightarrow> args \<Rightarrow> string \<Rightarrow> int \<Rightarrow> loop_state \<Rightarrow> loop_state \<times> exn option" where
  "train_step w a dir s st =
     (let metadata = (store_metadata a \<and> s mod 50 = 0);
          st1 = st\<lparr>ls_step := Some s,
                   ls_events := ls_events st
                     @ (if metadata then [Print ''Storing metadata''] else []) @ [RunStep s]\<rparr>
      in case sess_run w s of
           Some e \<Rightarrow> (st1, Some e)
         | None \<Rightarrow>
             (let st2 = st1\<lparr>ls_events := ls_events st1 @ [AddSummary s]
                            @ (if metadata
                               then [AddRunMetadata s,
                                     WriteTimeline (os_path_join dir [''timeline.trace''])]
                               else [])
                            @ [Progress s]\<rparr>
              in if checkpoint_every a = 0 then (st2, Some ZeroDivisionError)
                 else if s mod checkpoint_every a = 0
                 then (st2\<lparr>ls_events := ls_events st2 @ [PeriodicSave dir s],
                           ls_last_saved := s\<rparr>, None)
                 else (st2, None)))"

text \<open>The loop over the list that \<^verbatim>\<open>range\<close> returns; an exception ends it.\<close>

fun train_steps ::
  "world \<Rightarrow> args \<Rightarrow> string \<Rightarrow> int list \<Rightarrow> loop_state \<Rightarrow> loop_state \<times> exn option" where
  "train_steps w a dir [] st = (st, None)"
| "train_steps w a dir (s # rest) st =
     (case train_step w a dir s st of
        (st', Some e) \<Rightarrow> (st', Some e)
      | (st', None) \<Rightarrow> train_steps w a dir rest st')"

text \<open>
  The \<^verbatim>\<open>try\<close> statement of lines 450 to 490. \<^verbatim>\<open>KeyboardInterrupt\<close> is caught and
  answered with an empty line; any other exception stays pending over the
  \<^verbatim>\<open>finally\<close> block. The block reads \<^verbatim>\<open>step\<close>: unbound, the read raises and
  the rest of the block is not run.
\<close>

definition training :: "world \<Rightarrow> args \<Rightarrow> string \<Rightarrow> int \<Rightarrow> outcome" where
  "training w a dir saved_global_step =
     (let st0 = \<lparr>ls_events = [], ls_step = None, ls_last_saved = saved_global_step\<rparr>;
          res = train_steps w a dir [saved_global_step + 1 .. num_steps a - 1] st0;
          st = fst res;
          out = (if snd res = Some KeyboardInterrupt then [Print []] else []);
          pending = (if snd res = Some KeyboardInterrupt then None else snd res)
      in case ls_step st of
           None \<Rightarrow> \<lparr>events = ls_events st @ out, status = Raised UnboundLocalError\<rparr>
         | Some step \<Rightarrow>
             \<lparr>events = ls_events st @ out
                @ (if step > ls_last_saved st then [FinalSave dir step] else [])
                @ [StopThreads],
              status = (case pending of None \<Rightarrow> Returned | Some e \<Rightarrow> Raised e)\<rparr>)"

definition restore_failed_message :: string where
  "restore_failed_message =
     ''Something went wrong while restoring checkpoint. We will terminate training to avoid accidentally overwriting the previous model.''"

text \<open>
  The step from which the run counts (lines 436 to 439): \<open>-1\<close> for a new or an
  overwritten training, the restored step otherwise.
\<close>

definition saved_step :: "bool \<Rightarrow> int option \<Rightarrow> int" where
  "saved_step is_overwritten_training loaded =
     (case loaded of
        None \<Rightarrow> - 1
      | Some s \<Rightarrow> if is_overwritten_training then - 1 else s)"

definition standalone ::
  "world \<Rightarrow> args \<Rightarrow> int \<Rightarrow> string \<Rightarrow> string option \<Rightarrow> string \<Rightarrow> bool \<Rightarrow> outcome" where
  "standalone w a sample_rate dir dir_root restore_dir is_overwritten_training =
     (let setup = [CreateReader (create_inputs a sample_rate), Dequeue (batch_size a),
                   BuildTower (num_gpus a > 1), CreateWriter dir, InitVariables]
      in case load w restore_dir of
           (out, Inl e) \<Rightarrow>
             \<lparr>events = setup @ out @ [Print restore_failed_message], status = Raised e\<rparr>
         | (out, Inr loaded) \<Rightarrow>
             prepend (setup @ out @ [StartThreads])
               (training w a dir (saved_step is_overwritten_training loaded)))"

section \<open>Distributed training\<close>

text \<open>
  The \<^verbatim>\<open>while\<close> loop of a worker (lines 383 to 394). The \<open>n\<close>-th test of the loop asks
  the supervisor (\<open>should_stop w n\<close>), the \<open>n\<close>-th session run raises or fetches the
  global step (\<open>dist_run w n\<close>), which becomes \<^verbatim>\<open>step\<close>. Nothing bounds the number of
  iterations, so the loop is given fuel: \<open>None\<close> is a loop still running when the fuel
  is used up.
\<close>

fun worker_loop ::
  "world \<Rightarrow> args \<Rightarrow> bool \<Rightarrow> nat \<Rightarrow> nat \<Rightarrow> int \<Rightarrow> event list
     \<Rightarrow> (event list \<times> int \<times> exn option) option" where
  "worker_loop w a is_chief 0 n step out = None"
| "worker_loop w a is_chief (Suc fuel) n step out =
     (if \<not> should_stop w n \<and> step \<le> num_steps a then
        (case dist_run w n of
           Inl e \<Rightarrow> Some (out @ [DistRun n], step, Some e)
         | Inr global_step \<Rightarrow>
             worker_loop w a is_chief fuel (Suc n) global_step
               (out @ [DistRun n]
                  @ (if is_chief then [AddSummary global_step] else [])
                  @ [Progress global_step]))
      else Some (out, step, None))"

text \<open>
  \<^verbatim>\<open>distributed\<close>: a parameter server joins the server and never returns; a worker
  trains and, in its \<^verbatim>\<open>finally\<close> block (lines 400 to 406), calls \<^verbatim>\<open>save\<close>; any other
  job name only starts the server. The checkpoints and summaries that the supervisor
  writes by itself, on its own timers, are not part of the model.
\<close>

definition distributed :: "world \<Rightarrow> args \<Rightarrow> int \<Rightarrow> string \<Rightarrow> nat \<Rightarrow> outcome option" where
  "distributed w a sample_rate dir fuel =
     (let server = [StartServer (job_name a) (task_index a)] in
      if job_name a = ''ps'' then Some \<lparr>events = server, status = Blocked\<rparr>
      else if job_name a = ''worker'' then
        (let is_chief = (task_index a = 0);
             out = server @ [CreateReader (create_inputs a sample_rate), Dequeue (batch_size a),
                             StartThreads]
                     @ (if is_chief then [StartChiefQueueRunner, InitTokens, CreateWriter dir]
                        else [])
         in case worker_loop w a is_chief fuel 0 0 out of
              None \<Rightarrow> None
            | Some (out1, step, r) \<Rightarrow>
                Some \<lparr>events = out1 @ (if r = Some KeyboardInterrupt then [Print []] else [])
                                @ [FinalSave dir step, StopThreads, SvStop],
                      status = (case r of
                                  None \<Rightarrow> Returned
                                | Some e \<Rightarrow> if e = KeyboardInterrupt then Returned
                                            else Raised e)\<rparr>)
      else Some \<lparr>events = server, status = Returned\<rparr>)"

section \<open>\<^verbatim>\<open>main\<close>\<close>

definition main :: "world \<Rightarrow> args \<Rightarrow> nat \<Rightarrow> outcome option" where
  "main w a fuel =
     (case validate_directories (started_datestring w) a of
        (out, Inl e) \<Rightarrow>
          if e = ValueError
          then Some \<lparr>events = out @ [Print ''Some arguments are wrong:'', PrintException e],
                     status = Returned\<rparr>
          else Some \<lparr>events = out, status = Raised e\<rparr>
      | (out, Inr directories) \<Rightarrow>
          (let dir = dir_logdir directories;
               dir_root = dir_logdir_root directories;
               restore_dir = dir_restore_from directories;
               is_overwritten_training = (dir \<noteq> restore_dir);
               out1 = out @ [OpenFile (wavenet_params a)]
           in case json_load w (wavenet_params a) of
                Inl e \<Rightarrow> Some \<lparr>events = out1, status = Raised e\<rparr>
              | Inr sample_rate \<Rightarrow>
                  if job_name a \<noteq> STANDALONE
                  then map_option (prepend out1) (distributed w a sample_rate dir fuel)
                  else Some (prepend out1
                         (standalone w a sample_rate dir dir_root restore_dir
                            is_overwritten_training))))"

section \<open>What a trace shows\<close>

text \<open>
  The steps that the standalone loop entered, the steps at which it wrote a periodic
  checkpoint and the final checkpoints, read off the events of a run.
\<close>

fun steps_of :: "event list \<Rightarrow> int list" where
  "steps_of [] = []"
| "steps_of (RunStep s # es) = s # steps_of es"
| "steps_of (_ # es) = steps_of es"

fun periodic_of :: "event list \<Rightarrow> int list" where
  "periodic_of [] = []"
| "periodic_of (PeriodicSave _ s # es) = s # periodic_of es"
| "periodic_of (_ # es) = periodic_of es"

fun final_of :: "event list \<Rightarrow> int list" where
  "final_of [] = []"
| "final_of (FinalSave _ s # es) = s # final_of es"
| "final_of (_ # es) = final_of es"

fun summaries_of :: "event list \<Rightarrow> int list" where
  "summaries_of [] = []"
| "summaries_of (AddSummary s # es) = s # summaries_of es"
| "summaries_of (_ # es) = summaries_of es"

text \<open>
  The step of the last checkpoint that a run knows of: its last periodic checkpoint,
  or the step it started from when it has written none.
\<close>

definition last_checkpointed :: "int \<Rightarrow> event list \<Rightarrow> int" where
  "last_checkpointed saved_global_step es =
     (if periodic_of es = [] then saved_global_step else last (periodic_of es))"

text \<open>The step that the loop entered last, if it entered any.\<close>

definition last_step :: "event list \<Rightarrow> int option" where
  "last_step es = (if steps_of es = [] then None else Some (last (steps_of es)))"

text \<open>
  The events that are the chief worker's alone in distributed training: summaries,
  the summary writer, the chief's queue runner and the initial tokens.
\<close>

fun chief_event :: "event \<Rightarrow> bool" where
  "chief_event (AddSummary _) = True"
| "chief_event (CreateWriter _) = True"
| "chief_event StartChiefQueueRunner = True"
| "chief_event InitTokens = True"
| "chief_event _ = False"

text \<open>How many of the three directory options the command line gives.\<close>

definition options_given :: "args \<Rightarrow> nat" where
  "options_given a =
     length (filter (\<lambda>x. x \<noteq> None) [logdir a, logdir_root a, restore_from a])"

section \<open>A run in which nothing goes wrong\<close>

text \<open>
  The defaults that \<^verbatim>\<open>get_arguments\<close> gives the modelled arguments, and surroundings
  without any checkpoint, failure or interrupt.
\<close>

definition default_args :: args where
  "default_args =
     \<lparr>batch_size = 1, data_dir = ''./VCTK-Corpus'', store_metadata = False,
      logdir = None, logdir_root = None, restore_from = None,
      checkpoint_every = 50, num_steps = 100000,
      wavenet_params = ''./wavenet_params.json'', sample_size = 100000,
      silence_threshold = 0.3, num_gpus = 1, random_crop = False,
      job_name = ''standalone'', task_index = 0\<rparr>"

definition quiet_world :: world where
  "quiet_world =
     \<lparr>started_datestring = ''2016-11-04T12-00-00'',
      get_checkpoint_state = (\<lambda>_. Inr None),
      py_int = (\<lambda>_. None),
      saver_restore = (\<lambda>_. None),
      json_load = (\<lambda>_. Inr 16000),
      sess_run = (\<lambda>_. None),
      should_stop = (\<lambda>_. False),
      dist_run = (\<lambda>n. Inr (int n))\<rparr>"

section \<open>Properties of the gradient averaging\<close>

lemma concat_collect_grads: "concat (collect_grads gv) = contributions gv"
  by (induction gv rule: collect_grads.induct)
     (auto simp: contributions_def expand_dims0_def split: option.splits)

lemma length_collect_grads: "length (collect_grads gv) = length (contributions gv)"
  by (induction gv rule: collect_grads.induct)
     (auto simp: contributions_def expand_dims0_def split: option.splits)

lemma collect_grads_Nil: "collect_grads gv = [] \<longleftrightarrow> contributions gv = []"
  using length_collect_grads [of gv] by auto

lemma concat0_same_shape:
  "concat grads \<noteq> [] \<Longrightarrow> same_shape (concat grads) \<Longrightarrow> concat0 grads = Inr (concat grads)"
  by (cases "concat grads") (auto simp: concat0_def same_shape_def)

lemma reduce_mean0_arith_mean: "ts \<noteq> [] \<Longrightarrow> reduce_mean0 ts = arith_mean ts"
  by (cases ts) (auto simp: reduce_mean0_def arith_mean_def)

text \<open>
  The loop, once \<^verbatim>\<open>v\<close> is bound or the first variable has a gradient: it returns one
  pair per variable, the mean of the contributions where there is one and \<^verbatim>\<open>None\<close>
  where there is none.
\<close>

lemma average_loop_spec:
  assumes "list_all (\<lambda>col. same_shape (contributions col)) cols"
    and "v \<noteq> None \<or> cols = [] \<or> contributions (hd cols) \<noteq> []"
  shows "\<exists>avg. average_loop cols v acc = Inr (acc @ avg) \<and> length avg = length cols \<and>
           (\<forall>i<length cols.
              (contributions (cols ! i) \<noteq> [] \<longrightarrow>
                 avg ! i = (Some (arith_mean (contributions (cols ! i))), snd (hd (cols ! i)))) \<and>
              (contributions (cols ! i) = [] \<longrightarrow> fst (avg ! i) = None))"
  using assms
proof (induction cols arbitrary: v acc)
  case Nil
  then show ?case by simp
next
  case (Cons col rest)
  have shapes: "list_all (\<lambda>col. same_shape (contributions col)) rest"
    and shape: "same_shape (contributions col)"
    using Cons.prems(1) by simp_all
  show ?case
  proof (cases "contributions col = []")
    case True
    with Cons.prems(2) obtain v' where v: "v = Some v'" by auto
    from Cons.IH [OF shapes, of v "acc @ [(None, v')]"] v
    obtain avg where avg:
      "average_loop rest v (acc @ [(None, v')]) = Inr ((acc @ [(None, v')]) @ avg)"
      "length avg = length rest"
      "\<forall>i<length rest.
         (contributions (rest ! i) \<noteq> [] \<longrightarrow>
            avg ! i = (Some (arith_mean (contributions (rest ! i))), snd (hd (rest ! i)))) \<and>
         (contributions (rest ! i) = [] \<longrightarrow> fst (avg ! i) = None)"
      by auto
    have "average_loop (col # rest) v acc = Inr (acc @ ((None, v') # avg))"
      using True v avg(1) by (simp add: collect_grads_Nil Let_def)
    moreover have "length ((None, v') # avg) = length (col # rest)"
      using avg(2) by simp
    moreover have "\<forall>i<length (col # rest).
         (contributions ((col # rest) ! i) \<noteq> [] \<longrightarrow>
            ((None, v') # avg) ! i =
              (Some (arith_mean (contributions ((col # rest) ! i))), snd (hd ((col # rest) ! i)))) \<and>
         (contributions ((col # rest) ! i) = [] \<longrightarrow> fst (((None, v') # avg) ! i) = None)"
      using True avg(3) by (auto simp: nth_Cons split: nat.splits)
    ultimately show ?thesis by blast
  next
    case False
    then obtain g v' col' where col: "col = (g, v') # col'"
      by (cases col) (auto simp: contributions_def)
    let ?m = "arith_mean (contributions col)"
    from Cons.IH [OF shapes, of "Some v'" "acc @ [(Some ?m, v')]"]
    obtain avg where avg:
      "average_loop rest (Some v') (acc @ [(Some ?m, v')]) = Inr ((acc @ [(Some ?m, v')]) @ avg)"
      "length avg = length rest"
      "\<forall>i<length rest.
         (contributions (rest ! i) \<noteq> [] \<longrightarrow>
            avg ! i = (Some (arith_mean (contributions (rest ! i))), snd (hd (rest ! i)))) \<and>
         (contributions (rest ! i) = [] \<longrightarrow> fst (avg ! i) = None)"
      by auto
    have c0: "concat0 (collect_grads col) = Inr (contributions col)"
      using False shape concat0_same_shape [of "collect_grads col"]
      by (simp add: concat_collect_grads)
    have "average_loop (col # rest) v acc = Inr (acc @ ((Some ?m, v') # avg))"
      using False avg(1) c0 reduce_mean0_arith_mean [OF False]
      by (simp add: collect_grads_Nil Let_def col del: collect_grads.simps)
    moreover have "length ((Some ?m, v') # avg) = length (col # rest)"
      using avg(2) by simp
    moreover have "\<forall>i<length (col # rest).
         (contributions ((col # rest) ! i) \<noteq> [] \<longrightarrow>
            ((Some ?m, v') # avg) ! i =
              (Some (arith_mean (contributions ((col # rest) ! i))), snd (hd ((col # rest) ! i)))) \<and>
         (contributions ((col # rest) ! i) = [] \<longrightarrow> fst (((Some ?m, v') # avg) ! i) = None)"
      using False avg(3) col by (auto simp: nth_Cons split: nat.splits)
    ultimately show ?thesis by blast
  qed
qed

lemma fold_min_const: "list_all (\<lambda>x. x = n) xs \<Longrightarrow> fold min xs n = (n::nat)"
  by (induction xs) auto

lemma zip_star_nth:
  assumes "towers \<noteq> []" and "list_all (\<lambda>t. length t = n) towers" and "i < n"
  shows "length (zip_star towers) = n" and "zip_star towers ! i = map (\<lambda>t. t ! i) towers"
proof -
  obtain t ts where t: "towers = t # ts" using assms(1) by (cases towers) auto
  have "fold min (map length towers) (length t) = n"
    using assms(2) t fold_min_const [of n "map length towers"]
    by (simp add: list_all_iff)
  then show "length (zip_star towers) = n" and "zip_star towers ! i = map (\<lambda>t. t ! i) towers"
    using t assms(3) by (simp_all add: zip_star_def)
qed

text \<open>
  Towers that list the same \<open>n\<close> variables, with gradients of one shape per variable:
  when the first variable has a gradient in some tower, the aggregation returns, and
  a variable with a gradient in \<open>M \<ge> 1\<close> towers gets the mean of exactly those \<open>M\<close>
  tensors, paired with the variable of the first tower.
\<close>

lemma average_gradients_mean:
  assumes towers: "towers \<noteq> []" "list_all (\<lambda>t. length t = n) towers"
    and shapes: "list_all (\<lambda>col. same_shape (contributions col)) (zip_star towers)"
    and first: "contributions (map (\<lambda>t. t ! 0) towers) \<noteq> []"
    and i: "i < n" "contributions (map (\<lambda>t. t ! i) towers) \<noteq> []"
  shows "\<exists>avg. average_gradients towers = Inr avg \<and> length avg = n \<and>
           avg ! i = (Some (arith_mean (contributions (map (\<lambda>t. t ! i) towers))),
                      snd (hd towers ! i))"
proof -
  let ?cols = "zip_star towers"
  have n: "0 < n" using i(1) by simp
  have len: "length ?cols = n" using zip_star_nth(1) [OF towers n] .
  have col: "?cols ! i = map (\<lambda>t. t ! i) towers" using zip_star_nth(2) [OF towers i(1)] .
  have "hd ?cols = ?cols ! 0" using len n by (cases ?cols) auto
  then have hd: "contributions (hd ?cols) \<noteq> []"
    using first zip_star_nth(2) [OF towers n] by simp
  from average_loop_spec [OF shapes, of None "[]"] hd
  obtain avg where avg: "average_loop ?cols None [] = Inr avg" "length avg = length ?cols"
    "\<forall>j<length ?cols.
       (contributions (?cols ! j) \<noteq> [] \<longrightarrow>
          avg ! j = (Some (arith_mean (contributions (?cols ! j))), snd (hd (?cols ! j)))) \<and>
       (contributions (?cols ! j) = [] \<longrightarrow> fst (avg ! j) = None)"
    by auto
  have "hd (map (\<lambda>t. t ! i) towers) = hd towers ! i"
    using towers(1) by (cases towers) auto
  then have "avg ! i = (Some (arith_mean (contributions (map (\<lambda>t. t ! i) towers))),
                        snd (hd towers ! i))"
    using avg(3) i len col by auto
  then show ?thesis
    using avg(1,2) len by (auto simp: average_gradients_def)
qed

text \<open>
  A variable without any gradient, after one that has gradients: the pair that the
  aggregation returns for it names the earlier variable, the value that \<^verbatim>\<open>v\<close> still
  holds.
\<close>

lemma average_gradients_stale_variable:
  "average_gradients [[(Some [1, 2], ''P''), (None, ''Q'')], [(Some [3, 6], ''P''), (None, ''Q'')]]
     = Inr [(Some [2, 4], ''P''), (None, ''P'')]"
  by (simp add: average_gradients_def zip_star_def expand_dims0_def concat0_def
      reduce_mean0_def upt_rec)

text \<open>
  C1. The aggregation is to give a variable \<open>P\<close> with a gradient in \<open>M\<close> of the \<open>N\<close>
  towers the mean of those \<open>M\<close> gradients, for every input. With two towers and the
  variables \<open>Q\<close>, \<open>P\<close> in this order, \<open>Q\<close> without a gradient in either tower and \<open>P\<close>
  with the gradients \<open>[1, 2]\<close> and \<open>[3, 6]\<close> (\<open>M = N = 2\<close>), the mean for \<open>P\<close> is
  \<open>[2, 4]\<close>, and the aggregation returns nothing: it raises \<^verbatim>\<open>UnboundLocalError\<close> at
  \<open>Q\<close>, before it reaches \<open>P\<close>.
\<close>

theorem average_gradients_mean_lost:
  "average_gradients
     [[(None, ''Q''), (Some [1, 2], ''P'')], [(None, ''Q''), (Some [3, 6], ''P'')]]
     = Inl UnboundLocalError
   \<and> arith_mean (contributions [(Some [1, 2], ''P''), (Some [3, 6], ''P'')]) = [2, 4]"
  by (simp add: average_gradients_def zip_star_def arith_mean_def contributions_def upt_rec)

lemma fold_min_pos: "list_all (\<lambda>x. 0 < x) xs \<Longrightarrow> 0 < n \<Longrightarrow> 0 < fold min xs (n::nat)"
  by (induction xs arbitrary: n) auto

lemma zip_star_first:
  assumes "towers \<noteq> []" and "list_all (\<lambda>t. t \<noteq> []) towers"
  shows "\<exists>cols. zip_star towers = map hd towers # cols"
proof -
  obtain t ts where t: "towers = t # ts" using assms(1) by (cases towers) auto
  let ?k = "fold min (map length towers) (length t)"
  have "list_all (\<lambda>x. 0 < x) (map length towers)"
    using assms(2) by (simp add: list_all_iff)
  moreover have "0 < length t" using assms(2) t by simp
  ultimately have "0 < ?k" by (rule fold_min_pos)
  then have "[0..<?k] = 0 # [1..<?k]" by (simp add: upt_rec)
  moreover have "map (\<lambda>ys. ys ! 0) towers = map hd towers"
    using assms(2) by (auto simp: list_all_iff hd_conv_nth)
  ultimately show ?thesis using t by (simp add: zip_star_def)
qed

text \<open>
  C2. A variable without a gradient in any tower is to count as no contribution, and
  the aggregation is to be defined wherever such a variable stands, also in the first
  place. In the first place it is not: when the first variable of the towers has no
  gradient in any of them, line 248 reads \<^verbatim>\<open>v\<close> before any assignment and the
  aggregation raises \<^verbatim>\<open>UnboundLocalError\<close>.
\<close>

theorem average_gradients_first_absent:
  assumes "towers \<noteq> []" and "list_all (\<lambda>t. t \<noteq> []) towers"
    and "contributions (map hd towers) = []"
  shows "average_gradients towers = Inl UnboundLocalError"
proof -
  from zip_star_first [OF assms(1,2)]
  obtain cols where "zip_star towers = map hd towers # cols" by blast
  then show ?thesis
    using assms(3) by (simp add: average_gradients_def collect_grads_Nil Let_def)
qed

theorem average_gradients_first_absent_witness:
  "[[(None, ''P0'')], [(None, ''P0'')]] \<noteq> []
   \<and> list_all (\<lambda>t. t \<noteq> []) [[(None :: tensor option, ''P0'')], [(None, ''P0'')]]
   \<and> contributions (map hd [[(None, ''P0'')], [(None, ''P0'')]]) = []
   \<and> average_gradients [[(None, ''P0'')], [(None, ''P0'')]] = Inl UnboundLocalError"
proof -
  have 1: "[[(None :: tensor option, ''P0'')], [(None, ''P0'')]] \<noteq> []" by simp
  have 2: "list_all (\<lambda>t. t \<noteq> []) [[(None :: tensor option, ''P0'')], [(None, ''P0'')]]" by simp
  have 3: "contributions (map hd [[(None, ''P0'')], [(None, ''P0'')]]) = []"
    by (simp add: contributions_def)
  show ?thesis
    using 1 2 3 average_gradients_first_absent [OF 1 2 3] by simp
qed

section \<open>Traces of the training loop\<close>

lemma steps_of_append: "steps_of (es @ es') = steps_of es @ steps_of es'"
  by (induction es rule: steps_of.induct) simp_all

lemma periodic_of_append: "periodic_of (es @ es') = periodic_of es @ periodic_of es'"
  by (induction es rule: periodic_of.induct) simp_all

lemma final_of_append: "final_of (es @ es') = final_of es @ final_of es'"
  by (induction es rule: final_of.induct) simp_all

lemmas trace_append = steps_of_append periodic_of_append final_of_append

lemma load_trace:
  "steps_of (fst (load w d)) = []" "periodic_of (fst (load w d)) = []"
  "final_of (fst (load w d)) = []" "StopThreads \<notin> set (fst (load w d))"
  "StartThreads \<notin> set (fst (load w d))"
  by (auto simp: load_def Let_def split: sum.splits option.splits)

lemma train_step_trace:
  assumes "train_step w a dir s st = (st', r)"
  shows "steps_of (ls_events st') = steps_of (ls_events st) @ [s]"
    and "final_of (ls_events st') = final_of (ls_events st)"
    and "ls_step st' = Some s"
    and "ls_last_saved st = last_checkpointed g (ls_events st)
           \<Longrightarrow> ls_last_saved st' = last_checkpointed g (ls_events st')"
  using assms
  by (auto simp: train_step_def Let_def trace_append last_checkpointed_def
           split: option.splits if_splits)

lemma train_steps_steps:
  assumes "train_steps w a dir xs st = (st', r)"
  shows "\<exists>ys. steps_of (ls_events st') = steps_of (ls_events st) @ ys \<and> prefix ys xs \<and>
           (xs \<noteq> [] \<longrightarrow> ys \<noteq> []) \<and> (r = None \<longrightarrow> ys = xs)"
  using assms
proof (induction xs arbitrary: st)
  case Nil
  then show ?case by simp
next
  case (Cons s rest)
  obtain st1 r1 where step: "train_step w a dir s st = (st1, r1)"
    by (cases "train_step w a dir s st")
  note s1 = train_step_trace(1) [OF step]
  show ?case
  proof (cases r1)
    case (Some e)
    with Cons.prems step have "st' = st1" "r = Some e" by simp_all
    then show ?thesis using s1 by auto
  next
    case None
    with Cons.prems step have "train_steps w a dir rest st1 = (st', r)" by simp
    from Cons.IH [OF this] obtain ys where
      "steps_of (ls_events st') = steps_of (ls_events st1) @ ys" "prefix ys rest"
      "r = None \<longrightarrow> ys = rest"
      by blast
    then have "steps_of (ls_events st') = steps_of (ls_events st) @ (s # ys)
        \<and> prefix (s # ys) (s # rest) \<and> (r = None \<longrightarrow> s # ys = s # rest)"
      using s1 by simp
    then show ?thesis by blast
  qed
qed

lemma train_steps_inv:
  assumes "train_steps w a dir xs st = (st', r)"
    and "ls_step st = last_step (ls_events st)"
    and "ls_last_saved st = last_checkpointed g (ls_events st)"
    and "final_of (ls_events st) = []"
  shows "ls_step st' = last_step (ls_events st')
       \<and> ls_last_saved st' = last_checkpointed g (ls_events st')
       \<and> final_of (ls_events st') = []"
  using assms
proof (induction xs arbitrary: st)
  case Nil
  then show ?case by simp
next
  case (Cons s rest)
  obtain st1 r1 where step: "train_step w a dir s st = (st1, r1)"
    by (cases "train_step w a dir s st")
  have inv1: "ls_step st1 = last_step (ls_events st1)"
    "ls_last_saved st1 = last_checkpointed g (ls_events st1)"
    "final_of (ls_events st1) = []"
    using train_step_trace [OF step] Cons.prems(3,4) by (simp_all add: last_step_def)
  show ?case
  proof (cases r1)
    case (Some e)
    with Cons.prems(1) step have "st' = st1" by simp
    then show ?thesis using inv1 by simp
  next
    case None
    with Cons.prems(1) step have "train_steps w a dir rest st1 = (st', r)" by simp
    from Cons.IH [OF this inv1] show ?thesis .
  qed
qed

lemma training_cases:
  obtains st r where
    "train_steps w a dir [g + 1 .. num_steps a - 1]
       \<lparr>ls_events = [], ls_step = None, ls_last_saved = g\<rparr> = (st, r)"
    "ls_step st = last_step (ls_events st)"
    "ls_last_saved st = last_checkpointed g (ls_events st)"
    "final_of (ls_events st) = []"
    "prefix (steps_of (ls_events st)) [g + 1 .. num_steps a - 1]"
    "g + 1 < num_steps a \<longrightarrow> steps_of (ls_events st) \<noteq> []"
    "r = None \<longrightarrow> steps_of (ls_events st) = [g + 1 .. num_steps a - 1]"
proof -
  let ?st0 = "\<lparr>ls_events = [], ls_step = None, ls_last_saved = g\<rparr>"
  obtain st r where run: "train_steps w a dir [g + 1 .. num_steps a - 1] ?st0 = (st, r)"
    by (cases "train_steps w a dir [g + 1 .. num_steps a - 1] ?st0")
  have inv: "ls_step st = last_step (ls_events st)
       \<and> ls_last_saved st = last_checkpointed g (ls_events st)
       \<and> final_of (ls_events st) = []"
    by (rule train_steps_inv [OF run]) (simp_all add: last_step_def last_checkpointed_def)
  from train_steps_steps [OF run] obtain ys where
    ys: "steps_of (ls_events st) = ys" "prefix ys [g + 1 .. num_steps a - 1]"
        "[g + 1 .. num_steps a - 1] \<noteq> [] \<longrightarrow> ys \<noteq> []" "r = None \<longrightarrow> ys = [g + 1 .. num_steps a - 1]"
    by auto
  show thesis
    using that [OF run] inv ys by auto
qed

lemma training_events:
  fixes w a dir g
  defines "ev \<equiv> events (training w a dir g)"
  shows "prefix (steps_of ev) [g + 1 .. num_steps a - 1]"
    and "g + 1 < num_steps a \<longrightarrow> steps_of ev \<noteq> []"
    and "final_of ev =
           (case last_step ev of
              None \<Rightarrow> []
            | Some s \<Rightarrow> if s > last_checkpointed g ev then [s] else [])"
proof -
  obtain st r where run: "train_steps w a dir [g + 1 .. num_steps a - 1]
       \<lparr>ls_events = [], ls_step = None, ls_last_saved = g\<rparr> = (st, r)"
    and inv: "ls_step st = last_step (ls_events st)"
    "ls_last_saved st = last_checkpointed g (ls_events st)"
    "final_of (ls_events st) = []"
    and steps: "prefix (steps_of (ls_events st)) [g + 1 .. num_steps a - 1]"
    "g + 1 < num_steps a \<longrightarrow> steps_of (ls_events st) \<noteq> []"
    by (rule training_cases)
  let ?out = "if r = Some KeyboardInterrupt then [Print []] else []"
  have ev: "ev = (case ls_step st of
                   None \<Rightarrow> ls_events st @ ?out
                 | Some step \<Rightarrow> ls_events st @ ?out
                     @ (if step > ls_last_saved st then [FinalSave dir step] else [])
                     @ [StopThreads])"
    unfolding ev_def training_def by (simp add: run Let_def split: option.splits)
  have same: "steps_of ev = steps_of (ls_events st)" "periodic_of ev = periodic_of (ls_events st)"
    unfolding ev by (simp_all add: trace_append split: option.splits)
  then have last: "last_step ev = ls_step st" "last_checkpointed g ev = ls_last_saved st"
    using inv by (simp_all add: last_step_def last_checkpointed_def)
  show "prefix (steps_of ev) [g + 1 .. num_steps a - 1]"
    and "g + 1 < num_steps a \<longrightarrow> steps_of ev \<noteq> []"
    using steps same by simp_all
  have "final_of ev = (case ls_step st of None \<Rightarrow> []
      | Some s \<Rightarrow> if s > ls_last_saved st then [s] else [])"
    unfolding ev using inv(3) by (simp add: trace_append split: option.splits)
  then show "final_of ev =
           (case last_step ev of
              None \<Rightarrow> []
            | Some s \<Rightarrow> if s > last_checkpointed g ev then [s] else [])"
    using last by (simp split: option.splits)
qed

lemma standalone_loaded:
  assumes "snd (load w rd) = Inr loaded"
  shows "standalone w a sr dir dr rd ov =
           prepend ([CreateReader (create_inputs a sr), Dequeue (batch_size a),
                     BuildTower (num_gpus a > 1), CreateWriter dir, InitVariables]
                    @ fst (load w rd) @ [StartThreads])
             (training w a dir (saved_step ov loaded))"
  using assms by (cases "load w rd") (simp add: standalone_def)

lemma standalone_failed:
  assumes "snd (load w rd) = Inl e"
  shows "standalone w a sr dir dr rd ov =
           \<lparr>events = [CreateReader (create_inputs a sr), Dequeue (batch_size a),
                     BuildTower (num_gpus a > 1), CreateWriter dir, InitVariables]
                    @ fst (load w rd) @ [Print restore_failed_message],
            status = Raised e\<rparr>"
  using assms by (cases "load w rd") (simp add: standalone_def)

lemma standalone_trace:
  assumes "snd (load w rd) = Inr loaded"
  shows "steps_of (events (standalone w a sr dir dr rd ov))
           = steps_of (events (training w a dir (saved_step ov loaded)))"
    and "periodic_of (events (standalone w a sr dir dr rd ov))
           = periodic_of (events (training w a dir (saved_step ov loaded)))"
    and "final_of (events (standalone w a sr dir dr rd ov))
           = final_of (events (training w a dir (saved_step ov loaded)))"
    and "status (standalone w a sr dir dr rd ov)
           = status (training w a dir (saved_step ov loaded))"
  by (simp_all add: standalone_loaded [OF assms] prepend_def trace_append load_trace)

lemma main_runs_standalone:
  assumes "validate_directories (started_datestring w) a = (out, Inr d)"
    and "json_load w (wavenet_params a) = Inr sr"
    and "job_name a = STANDALONE"
  shows "main w a fuel =
           Some (prepend (out @ [OpenFile (wavenet_params a)])
             (standalone w a sr (dir_logdir d) (dir_logdir_root d) (dir_restore_from d)
                (dir_logdir d \<noteq> dir_restore_from d)))"
  using assms by (simp add: main_def Let_def)

lemma validate_directories_resume:
  assumes "snd (validate_directories ds a) = Inr d" and "restore_from a = None"
  shows "dir_restore_from d = dir_logdir d"
  using assms by (auto simp: validate_directories_def Let_def split: if_splits)

lemma trace_standalone_last:
  assumes "snd (load w rd) = Inr loaded"
  shows "last_step (events (standalone w a sr dir dr rd ov))
           = last_step (events (training w a dir (saved_step ov loaded)))"
    and "last_checkpointed g (events (standalone w a sr dir dr rd ov))
           = last_checkpointed g (events (training w a dir (saved_step ov loaded)))"
  by (simp_all add: last_step_def last_checkpointed_def standalone_trace [OF assms])

lemma load_no_checkpoint:
  "get_checkpoint_state w d = Inr None \<Longrightarrow> snd (load w d) = Inr None"
  by (simp add: load_def)

lemma load_restored:
  assumes "get_checkpoint_state w d = Inr (Some path)"
    and "py_int w (last (split_on CHR ''-'' (last (split_on CHR ''/'' path)))) = Some S"
    and "saver_restore w path = None"
  shows "snd (load w d) = Inr (Some S)"
  using assms by (simp add: load_def)

lemma load_raises:
  "snd (load w d) = Inl e \<longleftrightarrow>
     get_checkpoint_state w d = Inl e \<or>
     (\<exists>path. get_checkpoint_state w d = Inr (Some path) \<and>
        (case py_int w (last (split_on CHR ''-'' (last (split_on CHR ''/'' path)))) of
           None \<Rightarrow> e = ValueError
         | Some S \<Rightarrow> saver_restore w path = Some e))"
  by (auto simp: load_def Let_def split: sum.splits option.splits)

lemma prefix_upto_hd:
  assumes "prefix ys [i..j]" and "ys \<noteq> []"
  shows "hd ys = i"
proof -
  from assms obtain zs where zs: "[i..j] = ys @ zs" by (auto simp: prefix_def)
  with assms(2) have "[i..j] \<noteq> []" by auto
  then have "i \<le> j" by auto
  then have "hd [i..j] = i" by (simp add: upto.simps)
  then show ?thesis using zs assms(2) by simp
qed

section \<open>Standalone training: the step counter and the checkpoints\<close>

text \<open>
  C3, as the code has it. With \<^verbatim>\<open>num_steps = 3\<close>, \<^verbatim>\<open>checkpoint_every = 2\<close>, no
  checkpoint to restore and no interrupt, standalone training runs the steps 0, 1
  and 2 (the loop ends when the step would reach \<^verbatim>\<open>num_steps\<close>), writes periodic
  checkpoints after the steps 0 and 2, writes no final checkpoint, since the last
  step 2 is not greater than the last saved step 2, and returns. The events of the
  run, in their order: step 0 is run, its summary and its progress line are written,
  and only then its checkpoint is saved; step 1 follows without a checkpoint; step 2
  is run and reported before its checkpoint is saved; the threads are stopped next,
  with no checkpoint in between.
\<close>

theorem standalone_scenario:
  assumes "get_checkpoint_state w rd = Inr None" and "\<forall>s. sess_run w s = None"
    and "num_steps a = 3" and "checkpoint_every a = 2"
  shows "events (standalone w a sr dir dr rd ov) =
           [CreateReader (create_inputs a sr), Dequeue (batch_size a),
            BuildTower (num_gpus a > 1), CreateWriter dir, InitVariables,
            Print (''Trying to restore saved checkpoints from '' @ rd @ '' ...''),
            Print '' No checkpoint found.'', StartThreads]
           @ (if store_metadata a then [Print ''Storing metadata''] else [])
           @ [RunStep 0, AddSummary 0]
           @ (if store_metadata a
              then [AddRunMetadata 0, WriteTimeline (os_path_join dir [''timeline.trace''])]
              else [])
           @ [Progress 0, PeriodicSave dir 0,
              RunStep 1, AddSummary 1, Progress 1,
              RunStep 2, AddSummary 2, Progress 2, PeriodicSave dir 2,
              StopThreads]
       \<and> steps_of (events (standalone w a sr dir dr rd ov)) = [0, 1, 2]
       \<and> periodic_of (events (standalone w a sr dir dr rd ov)) = [0, 2]
       \<and> final_of (events (standalone w a sr dir dr rd ov)) = []
       \<and> status (standalone w a sr dir dr rd ov) = Returned"
proof -
  have l: "load w rd =
             ([Print (''Trying to restore saved checkpoints from '' @ rd @ '' ...''),
               Print '' No checkpoint found.''], Inr None)"
    using assms(1) by (simp add: load_def)
  have r: "[0 .. num_steps a - 1] = [0, 1, 2]"
    using assms(3) by (simp add: upto.simps)
  have t: "training w a dir (- 1) =
             \<lparr>events =
                (if store_metadata a then [Print ''Storing metadata''] else [])
                @ [RunStep 0, AddSummary 0]
                @ (if store_metadata a
                   then [AddRunMetadata 0, WriteTimeline (os_path_join dir [''timeline.trace''])]
                   else [])
                @ [Progress 0, PeriodicSave dir 0,
                   RunStep 1, AddSummary 1, Progress 1,
                   RunStep 2, AddSummary 2, Progress 2, PeriodicSave dir 2,
                   StopThreads],
              status = Returned\<rparr>"
    using assms(2,4) by (simp add: training_def r train_step_def Let_def)
  have s: "standalone w a sr dir dr rd ov =
             prepend ([CreateReader (create_inputs a sr), Dequeue (batch_size a),
                       BuildTower (num_gpus a > 1), CreateWriter dir, InitVariables]
                      @ [Print (''Trying to restore saved checkpoints from '' @ rd @ '' ...''),
                         Print '' No checkpoint found.''] @ [StartThreads])
               (training w a dir (- 1))"
    by (simp add: standalone_def l saved_step_def)
  show ?thesis
    unfolding s t by (simp add: prepend_def)
qed

theorem standalone_scenario_witness:
  "get_checkpoint_state quiet_world ''./logdir'' = Inr None
   \<and> (\<forall>s. sess_run quiet_world s = None)
   \<and> num_steps (default_args\<lparr>num_steps := 3, checkpoint_every := 2\<rparr>) = 3
   \<and> checkpoint_every (default_args\<lparr>num_steps := 3, checkpoint_every := 2\<rparr>) = 2
   \<and> events (standalone quiet_world (default_args\<lparr>num_steps := 3, checkpoint_every := 2\<rparr>)
         16000 ''./logdir'' None ''./logdir'' False) =
        [CreateReader (create_inputs (default_args\<lparr>num_steps := 3, checkpoint_every := 2\<rparr>)
           16000),
         Dequeue 1, BuildTower False, CreateWriter ''./logdir'', InitVariables,
         Print ''Trying to restore saved checkpoints from ./logdir ...'',
         Print '' No checkpoint found.'', StartThreads,
         RunStep 0, AddSummary 0, Progress 0, PeriodicSave ''./logdir'' 0,
         RunStep 1, AddSummary 1, Progress 1,
         RunStep 2, AddSummary 2, Progress 2, PeriodicSave ''./logdir'' 2,
         StopThreads]
   \<and> steps_of (events (standalone quiet_world (default_args\<lparr>num_steps := 3, checkpoint_every := 2\<rparr>)
         16000 ''./logdir'' None ''./logdir'' False)) = [0, 1, 2]
   \<and> periodic_of (events (standalone quiet_world (default_args\<lparr>num_steps := 3, checkpoint_every := 2\<rparr>)
         16000 ''./logdir'' None ''./logdir'' False)) = [0, 2]
   \<and> final_of (events (standalone quiet_world (default_args\<lparr>num_steps := 3, checkpoint_every := 2\<rparr>)
         16000 ''./logdir'' None ''./logdir'' False)) = []
   \<and> status (standalone quiet_world (default_args\<lparr>num_steps := 3, checkpoint_every := 2\<rparr>)
         16000 ''./logdir'' None ''./logdir'' False) = Returned"
proof -
  let ?a = "default_args\<lparr>num_steps := 3, checkpoint_every := 2\<rparr>"
  have 1: "get_checkpoint_state quiet_world ''./logdir'' = Inr None"
    by (simp add: quiet_world_def)
  have 2: "\<forall>s. sess_run quiet_world s = None" by (simp add: quiet_world_def)
  have 3: "num_steps ?a = 3" by simp
  have 4: "checkpoint_every ?a = 2" by simp
  have 5: "\<not> store_metadata ?a" "batch_size ?a = 1" "\<not> num_gpus ?a > 1"
    by (simp_all add: default_args_def)
  show ?thesis
    using 1 2 3 4 5
      standalone_scenario [OF 1 2 3 4, where sr = 16000 and dir = "''./logdir''"
        and dr = None and ov = False]
    by simp
qed

text \<open>
  The scenario as the specification words it expects a final checkpoint at step 3.
  The run writes no final checkpoint and never reaches a step 3.
\<close>

theorem standalone_scenario_counterexample:
  "final_of (events (standalone quiet_world (default_args\<lparr>num_steps := 3, checkpoint_every := 2\<rparr>)
      16000 ''./logdir'' None ''./logdir'' False)) = []
   \<and> 3 \<notin> set (steps_of (events (standalone quiet_world
        (default_args\<lparr>num_steps := 3, checkpoint_every := 2\<rparr>)
        16000 ''./logdir'' None ''./logdir'' False)))"
  by (simp add: standalone_def load_def quiet_world_def default_args_def prepend_def
      saved_step_def training_def train_step_def Let_def upto.simps)

text \<open>
  C4. The steps that a run enters are consecutive, from the saved step plus one: a
  run goes through an initial segment of \<open>[saved + 1 .. num_steps - 1]\<close>, and enters
  \<open>saved + 1\<close> first whenever that is below \<^verbatim>\<open>num_steps\<close>. The saved step is the
  restored step \<open>S\<close> when a checkpoint was restored into the same directory, and
  \<open>-1\<close>, so that the first step is 0, when the training is overwritten or no
  checkpoint exists.
\<close>

theorem standalone_step_counter:
  assumes "snd (load w rd) = Inr loaded"
  shows "prefix (steps_of (events (standalone w a sr dir dr rd ov)))
           [saved_step ov loaded + 1 .. num_steps a - 1]
       \<and> (saved_step ov loaded + 1 < num_steps a \<longrightarrow>
            steps_of (events (standalone w a sr dir dr rd ov)) \<noteq> []
            \<and> hd (steps_of (events (standalone w a sr dir dr rd ov))) = saved_step ov loaded + 1)
       \<and> (ov \<or> loaded = None \<longrightarrow> saved_step ov loaded = - 1)
       \<and> (\<not> ov \<and> loaded = Some S \<longrightarrow> saved_step ov loaded = S)"
proof -
  let ?g = "saved_step ov loaded"
  let ?ss = "steps_of (events (standalone w a sr dir dr rd ov))"
  have eq: "?ss = steps_of (events (training w a dir ?g))"
    by (rule standalone_trace(1) [OF assms])
  have p: "prefix ?ss [?g + 1 .. num_steps a - 1]"
    unfolding eq by (rule training_events(1))
  have n: "?g + 1 < num_steps a \<longrightarrow> ?ss \<noteq> []"
    unfolding eq by (rule training_events(2))
  have h: "?ss \<noteq> [] \<longrightarrow> hd ?ss = ?g + 1"
    using prefix_upto_hd [OF p] by blast
  have "(ov \<or> loaded = None \<longrightarrow> ?g = - 1) \<and> (\<not> ov \<and> loaded = Some S \<longrightarrow> ?g = S)"
    by (auto simp: saved_step_def split: option.splits)
  with p n h show ?thesis by blast
qed

theorem standalone_step_counter_witness:
  "snd (load quiet_world ''./logdir'') = Inr None
   \<and> saved_step False None = - 1
   \<and> hd (steps_of (events (standalone quiet_world (default_args\<lparr>num_steps := 10\<rparr>)
           16000 ''./logdir'' None ''./logdir'' False))) = 0
   \<and> snd (load
        (quiet_world\<lparr>get_checkpoint_state := (\<lambda>_. Inr (Some ''./logdir/model.ckpt-7'')),
                      py_int := (\<lambda>s. if s = ''7'' then Some 7 else None)\<rparr>)
        ''./logdir'') = Inr (Some 7)
   \<and> saved_step False (Some 7) = 7
   \<and> hd (steps_of (events (standalone
        (quiet_world\<lparr>get_checkpoint_state := (\<lambda>_. Inr (Some ''./logdir/model.ckpt-7'')),
                      py_int := (\<lambda>s. if s = ''7'' then Some 7 else None)\<rparr>)
        (default_args\<lparr>num_steps := 10\<rparr>)
        16000 ''./logdir'' None ''./logdir'' False))) = 8
   \<and> saved_step True (Some 7) = - 1
   \<and> hd (steps_of (events (standalone
        (quiet_world\<lparr>get_checkpoint_state := (\<lambda>_. Inr (Some ''./logdir/model.ckpt-7'')),
                      py_int := (\<lambda>s. if s = ''7'' then Some 7 else None)\<rparr>)
        (default_args\<lparr>num_steps := 10\<rparr>)
        16000 ''./logdir/train/new'' (Some ''./logdir'') ''./logdir'' True))) = 0"
proof -
  let ?w = "quiet_world\<lparr>get_checkpoint_state := (\<lambda>_. Inr (Some ''./logdir/model.ckpt-7'')),
                      py_int := (\<lambda>s. if s = ''7'' then Some 7 else None)\<rparr>"
  let ?a = "default_args\<lparr>num_steps := 10\<rparr>"
  have n: "num_steps ?a = 10" by simp
  have l0: "snd (load quiet_world ''./logdir'') = Inr None"
    by (simp add: load_def quiet_world_def)
  have l7: "snd (load ?w ''./logdir'') = Inr (Some 7)"
    by (simp add: load_def quiet_world_def)
  show ?thesis
    using l0 l7 n
      standalone_step_counter [OF l0, where ov = False and a = ?a and sr = 16000
          and dir = "''./logdir''" and dr = None and S = 0]
      standalone_step_counter [OF l7, where ov = False and a = ?a and sr = 16000
          and dir = "''./logdir''" and dr = None and S = 7]
      standalone_step_counter [OF l7, where ov = True and a = ?a and sr = 16000
          and dir = "''./logdir/train/new''" and dr = "Some ''./logdir''" and S = 7]
    by simp
qed

text \<open>
  C6. When standalone training ends, by an interrupt or at the step limit, exactly one
  final checkpoint is written if and only if the most recent step is strictly greater
  than the step of the last periodic checkpoint. The most recent step is the step that
  the loop entered last (the value of \<^verbatim>\<open>step\<close>); the last periodic checkpoint is
  the one of this run, or the step the run started from when it has written none
  (the value of \<^verbatim>\<open>last_saved_step\<close>). A run that has entered no step writes no
  final checkpoint.
\<close>

theorem standalone_final_checkpoint:
  assumes "snd (load w rd) = Inr loaded"
  shows "final_of (events (standalone w a sr dir dr rd ov)) =
           (case last_step (events (standalone w a sr dir dr rd ov)) of
              None \<Rightarrow> []
            | Some s \<Rightarrow>
                if s > last_checkpointed (saved_step ov loaded)
                         (events (standalone w a sr dir dr rd ov))
                then [s] else [])"
  by (simp only: standalone_trace(3) [OF assms] trace_standalone_last [OF assms]
        training_events(3))

theorem standalone_final_checkpoint_witness:
  "snd (load (quiet_world\<lparr>sess_run := (\<lambda>s. if s = 3 then Some KeyboardInterrupt else None)\<rparr>)
          ''./logdir'') = Inr None
   \<and> last_step (events (standalone
        (quiet_world\<lparr>sess_run := (\<lambda>s. if s = 3 then Some KeyboardInterrupt else None)\<rparr>)
        (default_args\<lparr>num_steps := 10, checkpoint_every := 2\<rparr>)
        16000 ''./logdir'' None ''./logdir'' False)) = Some 3
   \<and> last_checkpointed (saved_step False None) (events (standalone
        (quiet_world\<lparr>sess_run := (\<lambda>s. if s = 3 then Some KeyboardInterrupt else None)\<rparr>)
        (default_args\<lparr>num_steps := 10, checkpoint_every := 2\<rparr>)
        16000 ''./logdir'' None ''./logdir'' False)) = 2
   \<and> final_of (events (standalone
        (quiet_world\<lparr>sess_run := (\<lambda>s. if s = 3 then Some KeyboardInterrupt else None)\<rparr>)
        (default_args\<lparr>num_steps := 10, checkpoint_every := 2\<rparr>)
        16000 ''./logdir'' None ''./logdir'' False)) = [3]"
proof -
  let ?w = "quiet_world\<lparr>sess_run := (\<lambda>s. if s = 3 then Some KeyboardInterrupt else None)\<rparr>"
  let ?a = "default_args\<lparr>num_steps := 10, checkpoint_every := 2\<rparr>"
  let ?ev = "events (standalone ?w ?a 16000 ''./logdir'' None ''./logdir'' False)"
  have l: "snd (load ?w ''./logdir'') = Inr None"
    by (simp add: load_def quiet_world_def)
  have ev: "steps_of ?ev = [0, 1, 2, 3]" "periodic_of ?ev = [0, 2]"
    by (simp_all add: standalone_def load_def quiet_world_def default_args_def prepend_def
        saved_step_def training_def train_step_def Let_def upto.simps)
  have s: "last_step ?ev = Some 3" by (simp add: last_step_def ev)
  have c: "last_checkpointed (saved_step False None) ?ev = 2"
    by (simp add: last_checkpointed_def ev)
  show ?thesis
    using l s c standalone_final_checkpoint [OF l, where a = ?a and sr = 16000
        and dir = "''./logdir''" and dr = None and ov = False]
    by simp
qed

text \<open>
  C7. When restoring raises an error, standalone training ends with that error, right
  after printing the diagnostic: no thread is started, no step is run and no
  checkpoint is written. A directory without a checkpoint is no error: \<^verbatim>\<open>load\<close>
  returns \<^verbatim>\<open>None\<close> and training starts with step 0.
\<close>

theorem restore_failure_aborts:
  "(snd (load w rd) = Inl e \<longrightarrow>
      status (standalone w a sr dir dr rd ov) = Raised e
      \<and> last (events (standalone w a sr dir dr rd ov)) = Print restore_failed_message
      \<and> steps_of (events (standalone w a sr dir dr rd ov)) = []
      \<and> periodic_of (events (standalone w a sr dir dr rd ov)) = []
      \<and> final_of (events (standalone w a sr dir dr rd ov)) = []
      \<and> StartThreads \<notin> set (events (standalone w a sr dir dr rd ov)))
   \<and> (get_checkpoint_state w rd = Inr None \<longrightarrow>
      snd (load w rd) = Inr None
      \<and> prefix (steps_of (events (standalone w a sr dir dr rd ov))) [0 .. num_steps a - 1]
      \<and> (0 < num_steps a \<longrightarrow> hd (steps_of (events (standalone w a sr dir dr rd ov))) = 0))"
proof (intro conjI impI)
  assume f: "snd (load w rd) = Inl e"
  note eq = standalone_failed [OF f, of a sr dir dr ov]
  show "status (standalone w a sr dir dr rd ov) = Raised e" by (simp add: eq)
  show "last (events (standalone w a sr dir dr rd ov)) = Print restore_failed_message"
    by (simp add: eq)
  show "steps_of (events (standalone w a sr dir dr rd ov)) = []"
    by (simp add: eq trace_append load_trace)
  show "periodic_of (events (standalone w a sr dir dr rd ov)) = []"
    by (simp add: eq trace_append load_trace)
  show "final_of (events (standalone w a sr dir dr rd ov)) = []"
    by (simp add: eq trace_append load_trace)
  show "StartThreads \<notin> set (events (standalone w a sr dir dr rd ov))"
    by (simp add: eq load_trace)
next
  assume "get_checkpoint_state w rd = Inr None"
  then show l: "snd (load w rd) = Inr None" by (rule load_no_checkpoint)
  have eq: "steps_of (events (standalone w a sr dir dr rd ov))
              = steps_of (events (training w a dir (- 1)))"
    using standalone_trace(1) [OF l, of a sr dir dr ov] by (simp add: saved_step_def)
  show p: "prefix (steps_of (events (standalone w a sr dir dr rd ov))) [0 .. num_steps a - 1]"
    unfolding eq using training_events(1) [of w a dir "- 1"] by simp
  assume "0 < num_steps a"
  then have "steps_of (events (standalone w a sr dir dr rd ov)) \<noteq> []"
    unfolding eq using training_events(2) [of "- 1" a w dir] by simp
  then show "hd (steps_of (events (standalone w a sr dir dr rd ov))) = 0"
    using prefix_upto_hd [OF p] by simp
qed

theorem restore_failure_aborts_witness:
  "snd (load (quiet_world\<lparr>get_checkpoint_state := (\<lambda>_. Inr (Some ''./logdir/model.ckpt-7'')),
                py_int := (\<lambda>s. if s = ''7'' then Some 7 else None),
                saver_restore := (\<lambda>_. Some TFError)\<rparr>) ''./logdir'') = Inl TFError
   \<and> status (standalone
        (quiet_world\<lparr>get_checkpoint_state := (\<lambda>_. Inr (Some ''./logdir/model.ckpt-7'')),
                py_int := (\<lambda>s. if s = ''7'' then Some 7 else None),
                saver_restore := (\<lambda>_. Some TFError)\<rparr>)
        default_args 16000 ''./logdir'' None ''./logdir'' False) = Raised TFError
   \<and> steps_of (events (standalone
        (quiet_world\<lparr>get_checkpoint_state := (\<lambda>_. Inr (Some ''./logdir/model.ckpt-7'')),
                py_int := (\<lambda>s. if s = ''7'' then Some 7 else None),
                saver_restore := (\<lambda>_. Some TFError)\<rparr>)
        default_args 16000 ''./logdir'' None ''./logdir'' False)) = []
   \<and> get_checkpoint_state quiet_world ''./logdir'' = Inr None
   \<and> 0 < num_steps default_args
   \<and> snd (load quiet_world ''./logdir'') = Inr None
   \<and> hd (steps_of (events (standalone quiet_world default_args
        16000 ''./logdir'' None ''./logdir'' False))) = 0"
proof -
  let ?w = "quiet_world\<lparr>get_checkpoint_state := (\<lambda>_. Inr (Some ''./logdir/model.ckpt-7'')),
                py_int := (\<lambda>s. if s = ''7'' then Some 7 else None),
                saver_restore := (\<lambda>_. Some TFError)\<rparr>"
  have f: "snd (load ?w ''./logdir'') = Inl TFError"
    by (simp add: load_def quiet_world_def)
  have c: "get_checkpoint_state quiet_world ''./logdir'' = Inr None"
    by (simp add: quiet_world_def)
  have n: "0 < num_steps default_args" by (simp add: default_args_def)
  show ?thesis
    using f c n
      restore_failure_aborts [where w = ?w and rd = "''./logdir''" and e = TFError
          and a = default_args and sr = 16000 and dir = "''./logdir''" and dr = None
          and ov = False]
      restore_failure_aborts [where w = quiet_world and rd = "''./logdir''" and e = TFError
          and a = default_args and sr = 16000 and dir = "''./logdir''" and dr = None
          and ov = False]
    by simp
qed



section \<open>Directory options\<close>

text \<open>
  C5, as the code has it. With every given option a non-empty string, the validation
  rejects an argument set exactly when \<^verbatim>\<open>--logdir\<close> is given together with
  \<^verbatim>\<open>--logdir_root\<close> or with \<^verbatim>\<open>--restore_from\<close>; every other argument set is
  accepted, \<^verbatim>\<open>--logdir_root\<close> with \<^verbatim>\<open>--restore_from\<close> and no option at all among
  them. A rejected set raises \<^verbatim>\<open>ValueError\<close> in the validation; \<^verbatim>\<open>main\<close> reports
  it and returns, before it opens the parameter file or builds anything.
\<close>

theorem validate_directories_conflicts:
  assumes "logdir a \<noteq> Some []" and "logdir_root a \<noteq> Some []" and "restore_from a \<noteq> Some []"
  shows "(snd (validate_directories (started_datestring w) a) = Inl ValueError \<longleftrightarrow>
            logdir a \<noteq> None \<and> (logdir_root a \<noteq> None \<or> restore_from a \<noteq> None))
       \<and> (snd (validate_directories (started_datestring w) a) \<noteq> Inl ValueError \<longrightarrow>
            (\<exists>d. snd (validate_directories (started_datestring w) a) = Inr d))
       \<and> (snd (validate_directories (started_datestring w) a) = Inl ValueError \<longrightarrow>
            main w a fuel =
              Some \<lparr>events = [Print ''Some arguments are wrong:'', PrintException ValueError],
                    status = Returned\<rparr>)"
proof -
  have t: "truthy (logdir a) \<longleftrightarrow> logdir a \<noteq> None"
    "truthy (logdir_root a) \<longleftrightarrow> logdir_root a \<noteq> None"
    "truthy (restore_from a) \<longleftrightarrow> restore_from a \<noteq> None"
    using assms by (auto simp: truthy_def split: option.splits)
  show ?thesis
    by (auto simp: validate_directories_def main_def t Let_def)
qed

theorem validate_directories_conflicts_witness:
  "logdir (default_args\<lparr>logdir := Some ''./l'', restore_from := Some ''./r''\<rparr>) \<noteq> Some []
   \<and> logdir_root (default_args\<lparr>logdir := Some ''./l'', restore_from := Some ''./r''\<rparr>) \<noteq> Some []
   \<and> restore_from (default_args\<lparr>logdir := Some ''./l'', restore_from := Some ''./r''\<rparr>) \<noteq> Some []
   \<and> snd (validate_directories (started_datestring quiet_world)
        (default_args\<lparr>logdir := Some ''./l'', restore_from := Some ''./r''\<rparr>)) = Inl ValueError
   \<and> main quiet_world (default_args\<lparr>logdir := Some ''./l'', restore_from := Some ''./r''\<rparr>) 0
       = Some \<lparr>events = [Print ''Some arguments are wrong:'', PrintException ValueError],
               status = Returned\<rparr>"
proof -
  let ?a = "default_args\<lparr>logdir := Some ''./l'', restore_from := Some ''./r''\<rparr>"
  have 1: "logdir ?a \<noteq> Some []" by simp
  have 2: "logdir_root ?a \<noteq> Some []" by (simp add: default_args_def)
  have 3: "restore_from ?a \<noteq> Some []" by simp
  have g: "logdir ?a \<noteq> None \<and> (logdir_root ?a \<noteq> None \<or> restore_from ?a \<noteq> None)" by simp
  show ?thesis
    using 1 2 3 g validate_directories_conflicts [OF 1 2 3, where w = quiet_world and fuel = 0]
    by simp
qed

text \<open>
  Two of the three directory options given together and accepted: \<^verbatim>\<open>--logdir_root\<close>
  with \<^verbatim>\<open>--restore_from\<close>, the restore from another directory into a new dated one.
\<close>

theorem validate_directories_accepts_pair:
  "snd (validate_directories ''2016-11-04T12-00-00''
          (default_args\<lparr>logdir_root := Some ''./root'', restore_from := Some ''./old''\<rparr>))
     = Inr \<lparr>dir_logdir = ''./root/train/2016-11-04T12-00-00'',
            dir_logdir_root = Some ''./root'', dir_restore_from = ''./old''\<rparr>
   \<and> options_given (default_args\<lparr>logdir_root := Some ''./root'', restore_from := Some ''./old''\<rparr>)
       = 2"
  by (simp add: validate_directories_def default_args_def truthy_def options_given_def
      get_default_logdir_def os_path_join_def path_join2_def Let_def)

section \<open>The silence threshold of the reader\<close>

text \<open>
  C9. The reader is always constructed with the raw \<^verbatim>\<open>args.silence_threshold\<close>, never
  with \<^verbatim>\<open>None\<close>: for a threshold that does not exceed \<^verbatim>\<open>EPSILON\<close> the local value
  is \<^verbatim>\<open>None\<close>, and it is not what the reader gets.
\<close>

theorem create_inputs_silence_threshold:
  "reader_silence_threshold (create_inputs a sr) = Some (silence_threshold a)
   \<and> reader_silence_threshold (create_inputs a sr) \<noteq> None
   \<and> (silence_threshold a \<le> EPSILON \<longrightarrow>
        local_silence_threshold a = None
        \<and> reader_silence_threshold (create_inputs a sr) \<noteq> local_silence_threshold a)"
  by (simp add: create_inputs_def local_silence_threshold_def)

theorem create_inputs_silence_threshold_witness:
  "silence_threshold (default_args\<lparr>silence_threshold := 0\<rparr>) \<le> EPSILON
   \<and> local_silence_threshold (default_args\<lparr>silence_threshold := 0\<rparr>) = None
   \<and> reader_silence_threshold (create_inputs (default_args\<lparr>silence_threshold := 0\<rparr>) 16000)
       = Some 0"
proof -
  have h: "silence_threshold (default_args\<lparr>silence_threshold := 0\<rparr>) \<le> EPSILON"
    by (simp add: EPSILON_def)
  show ?thesis
    using h create_inputs_silence_threshold
      [where a = "default_args\<lparr>silence_threshold := 0\<rparr>" and sr = 16000]
    by simp
qed

section \<open>Workers of distributed training\<close>

lemma worker_loop_not_chief:
  assumes "worker_loop w a False fuel n step out = Some (out', step', r)"
  shows "filter chief_event out' = filter chief_event out \<and> final_of out' = final_of out"
  using assms
proof (induction fuel arbitrary: n step out)
  case 0
  then show ?case by simp
next
  case (Suc fuel)
  show ?case
  proof (cases "\<not> should_stop w n \<and> step \<le> num_steps a")
    case False
    with Suc.prems show ?thesis by auto
  next
    case True
    show ?thesis
    proof (cases "dist_run w n")
      case (Inl e)
      with True Suc.prems show ?thesis by (auto simp: final_of_append)
    next
      case (Inr global_step)
      with True Suc.prems have
        "worker_loop w a False fuel (Suc n) global_step (out @ [DistRun n] @ [Progress global_step])
           = Some (out', step', r)"
        by simp
      from Suc.IH [OF this] show ?thesis by (simp add: final_of_append)
    qed
  qed
qed

text \<open>
  C8. A worker that is not the chief is to write neither summaries nor checkpoints.
  It writes no summary, creates no summary writer and issues no tokens; but whenever
  its training ends, its \<^verbatim>\<open>finally\<close> block has called \<^verbatim>\<open>save\<close> once, as the
  chief's does: line 401 does not ask \<^verbatim>\<open>is_chief\<close>.
\<close>

theorem worker_not_chief_saves:
  assumes "job_name a = ''worker''" and "task_index a \<noteq> 0"
    and "distributed w a sr dir fuel = Some r"
  shows "length (final_of (events r)) = 1 \<and> filter chief_event (events r) = []"
proof -
  let ?out = "[StartServer (job_name a) (task_index a),
               CreateReader (create_inputs a sr), Dequeue (batch_size a), StartThreads]"
  from assms obtain out1 step e where
    loop: "worker_loop w a False fuel 0 0 ?out = Some (out1, step, e)"
    and r: "r = \<lparr>events = out1 @ (if e = Some KeyboardInterrupt then [Print []] else [])
                                @ [FinalSave dir step, StopThreads, SvStop],
                      status = (case e of
                                  None \<Rightarrow> Returned
                                | Some e \<Rightarrow> if e = KeyboardInterrupt then Returned
                                            else Raised e)\<rparr>"
    by (auto simp: distributed_def Let_def split: option.splits)
  from worker_loop_not_chief [OF loop]
  have "filter chief_event out1 = []" "final_of out1 = []" by simp_all
  then show ?thesis by (simp add: r final_of_append)
qed

theorem worker_not_chief_saves_witness:
  "job_name (default_args\<lparr>job_name := ''worker'', task_index := 1, num_steps := 2\<rparr>) = ''worker''
   \<and> task_index (default_args\<lparr>job_name := ''worker'', task_index := 1, num_steps := 2\<rparr>) \<noteq> 0
   \<and> distributed quiet_world
        (default_args\<lparr>job_name := ''worker'', task_index := 1, num_steps := 2\<rparr>)
        16000 ''./logdir'' 10
      = Some \<lparr>events =
          [StartServer ''worker'' 1,
           CreateReader (create_inputs
             (default_args\<lparr>job_name := ''worker'', task_index := 1, num_steps := 2\<rparr>) 16000),
           Dequeue 1, StartThreads,
           DistRun 0, Progress 0, DistRun 1, Progress 1, DistRun 2, Progress 2,
           DistRun 3, Progress 3,
           FinalSave ''./logdir'' 3, StopThreads, SvStop],
          status = Returned\<rparr>
   \<and> length (final_of (events (the (distributed quiet_world
        (default_args\<lparr>job_name := ''worker'', task_index := 1, num_steps := 2\<rparr>)
        16000 ''./logdir'' 10)))) = 1"
proof -
  let ?a = "default_args\<lparr>job_name := ''worker'', task_index := 1, num_steps := 2\<rparr>"
  have j: "job_name ?a = ''worker''" by simp
  have t: "task_index ?a \<noteq> 0" by simp
  have d: "distributed quiet_world ?a 16000 ''./logdir'' 10
      = Some \<lparr>events =
          [StartServer ''worker'' 1,
           CreateReader (create_inputs ?a 16000),
           Dequeue 1, StartThreads,
           DistRun 0, Progress 0, DistRun 1, Progress 1, DistRun 2, Progress 2,
           DistRun 3, Progress 3,
           FinalSave ''./logdir'' 3, StopThreads, SvStop],
          status = Returned\<rparr>"
    by (simp add: distributed_def quiet_world_def default_args_def Let_def eval_nat_numeral)
  show ?thesis
    using j t d worker_not_chief_saves [OF j t d] by simp
qed

end
